theory Spec2Isabelle
  imports Complex_Main "HOL-Library.Sublist"
begin

section \<open>Strings\<close>

text \<open>
  Model names, meter names and regions are JavaScript strings. They are modelled as
  \<^typ>\<open>string\<close>; the model is exact on ASCII text, where \<open>toLowerCase\<close> maps
  \<open>A\<close>..\<open>Z\<close> to \<open>a\<close>..\<open>z\<close> and leaves every other character alone.
\<close>

definition isUpper :: "char \<Rightarrow> bool" where
  "isUpper c = (65 \<le> (of_char c :: nat) \<and> (of_char c :: nat) \<le> 90)"

definition isLower :: "char \<Rightarrow> bool" where
  "isLower c = (97 \<le> (of_char c :: nat) \<and> (of_char c :: nat) \<le> 122)"

definition isDigit :: "char \<Rightarrow> bool" where
  "isDigit c = (48 \<le> (of_char c :: nat) \<and> (of_char c :: nat) \<le> 57)"

definition toLowerChar :: "char \<Rightarrow> char" where
  "toLowerChar c = (if isUpper c then char_of ((of_char c :: nat) + 32) else c)"

definition toLowerCase :: "string \<Rightarrow> string" where
  "toLowerCase s = map toLowerChar s"

text \<open>\<open>s.includes(sub)\<close>: \<open>sub\<close> occurs in \<open>s\<close> as a contiguous run.\<close>

fun includesStr :: "string \<Rightarrow> string \<Rightarrow> bool" where
  "includesStr [] sub = (sub = [])"
| "includesStr (c # cs) sub = (prefix sub (c # cs) \<or> includesStr cs sub)"

text \<open>The regular-expression classes \<open>\w\<close> (for \<open>\b\<close>), \<open>[- ]\<close> and the line
  terminators that \<open>.\<close> does not match.\<close>

definition isWordChar :: "char \<Rightarrow> bool" where
  "isWordChar c = (isUpper c \<or> isLower c \<or> isDigit c \<or> c = CHR ''_'')"

definition isSep :: "char \<Rightarrow> bool" where
  "isSep c = (c = CHR ''-'' \<or> c = CHR '' '')"

definition isLineTerminator :: "char \<Rightarrow> bool" where
  "isLineTerminator c = (c = CHR 0x0A \<or> c = CHR 0x0D)"

section \<open>Model-key canonicalisation\<close>

subsection \<open>The o-family pattern\<close>

text \<open>
  \<^verbatim>\<open>/\bo[- ]?([0-9]+)(?:[- ]mini)?/i\<close>, applied to lower-cased text. \<open>oVersion\<close> is
  given the text that follows a letter \<open>o\<close> and returns capture group 1. The separator
  is not a digit, so giving it back cannot make the digits match; the digits are taken
  greedily, and the optional \<open>mini\<close> group captures nothing.
\<close>

definition oVersion :: "string \<Rightarrow> string option" where
  "oVersion rest =
     (let rest' = (case rest of [] \<Rightarrow> [] | c # cs \<Rightarrow> if isSep c then cs else rest);
          ds = takeWhile isDigit rest'
      in if ds = [] then None else Some ds)"

text \<open>The leftmost match. \<open>prevWord\<close> says whether the character before the current
  position is a word character: the \<open>o\<close> is one, so \<open>\b\<close> holds before it exactly
  when the text starts there or the previous character is not a word character.\<close>

fun oFamilyScan :: "bool \<Rightarrow> string \<Rightarrow> string option" where
  "oFamilyScan prevWord [] = None"
| "oFamilyScan prevWord (c # cs) =
     (if c = CHR ''o'' \<and> \<not> prevWord then
        (case oVersion cs of
           Some v \<Rightarrow> Some v
         | None \<Rightarrow> oFamilyScan (isWordChar c) cs)
      else oFamilyScan (isWordChar c) cs)"

definition oFamilyMatch :: "string \<Rightarrow> string option" where
  "oFamilyMatch s = oFamilyScan False s"

subsection \<open>The generic GPT pattern\<close>

text \<open>
  \<^verbatim>\<open>/gpt[- ]?([34](?:\.5)?)(?:[ -]turbo)?(?:.*?)(32k|16k|8k|1106|0125|o)?/\<close>.
  Everything after the version is optional, so the first attempt at a start position
  succeeds: the lazy \<open>.*?\<close> stays empty, and group 2 is set only when one of its
  alternatives stands right after the version (and \<open>turbo\<close>, when present).
\<close>

definition gptCtxs :: "string list" where
  "gptCtxs = [''32k'', ''16k'', ''8k'', ''1106'', ''0125'', ''o'']"

definition gptMatchAt :: "string \<Rightarrow> (string \<times> string option) option" where
  "gptMatchAt s =
     (if \<not> prefix ''gpt'' s then None
      else
        let r1 = drop 3 s;
            r2 = (case r1 of [] \<Rightarrow> [] | c # cs \<Rightarrow> if isSep c then cs else r1)
        in case r2 of
             [] \<Rightarrow> None
           | d # r3 \<Rightarrow>
               if d \<noteq> CHR ''3'' \<and> d \<noteq> CHR ''4'' then None
               else
                 let ver = (if prefix ''.5'' r3 then d # ''.5'' else [d]);
                     r4 = (if prefix ''.5'' r3 then drop 2 r3 else r3);
                     r5 = (case r4 of
                             [] \<Rightarrow> []
                           | c # cs \<Rightarrow> if isSep c \<and> prefix ''turbo'' cs then drop 5 cs else r4)
                 in Some (ver, find (\<lambda>x. prefix x r5) gptCtxs))"

fun gptMatch :: "string \<Rightarrow> (string \<times> string option) option" where
  "gptMatch [] = None"
| "gptMatch (c # cs) =
     (case gptMatchAt (c # cs) of
        Some m \<Rightarrow> Some m
      | None \<Rightarrow> gptMatch cs)"

subsection \<open>The embedding pattern\<close>

text \<open>
  \<^verbatim>\<open>/embedding.*(ada|babbage|curie|davinci|gecko)/\<close>. The greedy \<open>.*\<close> stays on one
  line and gives characters back until a family name follows, so the capture is the
  family at the rightmost position of the line that has one.
\<close>

definition embedFamilies :: "string list" where
  "embedFamilies = [''ada'', ''babbage'', ''curie'', ''davinci'', ''gecko'']"

fun lastFamily :: "string \<Rightarrow> string option" where
  "lastFamily [] = None"
| "lastFamily (c # cs) =
     (case lastFamily cs of
        Some f \<Rightarrow> Some f
      | None \<Rightarrow> find (\<lambda>f. prefix f (c # cs)) embedFamilies)"

definition embedMatchAt :: "string \<Rightarrow> string option" where
  "embedMatchAt s =
     (if prefix ''embedding'' s
      then lastFamily (takeWhile (\<lambda>c. \<not> isLineTerminator c) (drop 9 s))
      else None)"

fun embedMatch :: "string \<Rightarrow> string option" where
  "embedMatch [] = None"
| "embedMatch (c # cs) =
     (case embedMatchAt (c # cs) of
        Some f \<Rightarrow> Some f
      | None \<Rightarrow> embedMatch cs)"

subsection \<open>extractModelKey: the vendor path\<close>

definition extractModelKey :: "string \<Rightarrow> string \<Rightarrow> string option" where
  "extractModelKey meterName skuName =
     (let src = toLowerCase (meterName @ '' '' @ skuName)
      in case oFamilyMatch src of
           Some version \<Rightarrow>
             Some (''o'' @ version @ (if includesStr src ''mini'' then ''-mini'' else ''''))
         | None \<Rightarrow>
             if includesStr src ''gpt-35'' \<or> includesStr src ''gpt35'' then Some ''gpt-35-turbo''
             else
               (case gptMatch src of
                  Some (v, c) \<Rightarrow>
                    Some (''gpt-'' @ remove1 (CHR ''.'') v
                          @ (case c of Some x \<Rightarrow> ''-'' @ x | None \<Rightarrow> ''''))
                | None \<Rightarrow>
                    (case embedMatch src of
                       Some f \<Rightarrow> Some (''text-embedding-'' @ f)
                     | None \<Rightarrow>
                         if includesStr src ''dall-e'' then Some ''dall-e'' else None)))"

subsection \<open>canonicalModelId: the user path\<close>

text \<open>The three replacements of the fallback:
  \<^verbatim>\<open>.replace(/[^a-z0-9]/g, '-')\<close>, \<^verbatim>\<open>.replace(/--+/g, '-')\<close> and
  \<^verbatim>\<open>.replace(/^-|-\$/g, '')\<close>. In the last one the dollar sign is escaped: its second
  alternative matches a hyphen followed by a literal dollar sign, not a hyphen at the
  end of the string.\<close>

definition hyphenate :: "string \<Rightarrow> string" where
  "hyphenate s = map (\<lambda>c. if isLower c \<or> isDigit c then c else CHR ''-'') s"

fun collapseHyphens :: "string \<Rightarrow> string" where
  "collapseHyphens (a # b # cs) =
     (if a = CHR ''-'' \<and> b = CHR ''-'' then collapseHyphens (b # cs)
      else a # collapseHyphens (b # cs))"
| "collapseHyphens cs = cs"

fun removeHyphenDollar :: "string \<Rightarrow> string" where
  "removeHyphenDollar (a # b # cs) =
     (if a = CHR ''-'' \<and> b = CHR ''$'' then removeHyphenDollar cs
      else a # removeHyphenDollar (b # cs))"
| "removeHyphenDollar cs = cs"

definition stripEnds :: "string \<Rightarrow> string" where
  "stripEnds s =
     (case s of
        [] \<Rightarrow> []
      | c # cs \<Rightarrow> if c = CHR ''-'' then removeHyphenDollar cs else removeHyphenDollar s)"

definition canonicalModelId :: "string \<Rightarrow> string" where
  "canonicalModelId model =
     (let modelLower = toLowerCase model
      in case oFamilyMatch modelLower of
           Some version \<Rightarrow>
             ''o'' @ version @ (if includesStr modelLower ''mini'' then ''-mini'' else '''')
         | None \<Rightarrow>
             if includesStr modelLower ''gpt-3.5'' \<or> includesStr modelLower ''gpt3.5''
             then ''gpt-35-turbo''
             else stripEnds (collapseHyphens (hyphenate (toLowerCase model))))"

section \<open>Numbers\<close>

text \<open>
  Token counts, prices and costs are JavaScript numbers. They are modelled as exact
  rationals: the rounding error of each double-precision operation, \<open>NaN\<close> and the
  infinities are outside the model. \<open>toFixed6 x\<close> is \<^verbatim>\<open>+(x).toFixed(6)\<close>: below
  \<open>10\<^sup>2\<^sup>1\<close> in magnitude the sign is set aside and the integer \<open>n\<close> with
  \<open>n / 10\<^sup>6\<close> nearest to the magnitude is taken, the larger one on a tie; from
  \<open>10\<^sup>2\<^sup>1\<close> on the number is printed in full and read back unchanged.
\<close>

definition toFixed6 :: "rat \<Rightarrow> rat" where
  "toFixed6 x =
     (if 10 ^ 21 \<le> \<bar>x\<bar> then x
      else if x < 0 then - (of_int \<lfloor>(- x) * 10 ^ 6 + 1 / 2\<rfloor> / 10 ^ 6)
      else of_int \<lfloor>x * 10 ^ 6 + 1 / 2\<rfloor> / 10 ^ 6)"


section \<open>Data model\<close>

record EstimatorOptions =
  optCurrency :: "string option"
  optCacheTTL :: "int option"

record CostInput =
  region :: string
  model :: string
  promptTokens :: "rat option"
  completionTokens :: "rat option"
  imageCount :: "rat option"

record PriceMeters =
  inputUsd :: "rat option"
  outputUsd :: "rat option"
  imageUsd :: "rat option"

record CachedRegionPricing =
  fetchedAt :: int
  meters :: "string \<rightharpoonup> PriceMeters"

record PriceItem =
  meterName :: "string option"
  skuName :: "string option"
  unitPrice :: "rat option"

record AzurePriceApiResponse =
  Items :: "PriceItem list"
  NextPageLink :: "string option"

text \<open>The estimator object: its three private fields.\<close>

record estimator =
  currency :: string
  cacheTTL :: int
  cache :: "string \<rightharpoonup> CachedRegionPricing"

definition newEstimator :: "EstimatorOptions \<Rightarrow> estimator" where
  "newEstimator opts =
     \<lparr> currency = (case optCurrency opts of Some c \<Rightarrow> c | None \<Rightarrow> ''USD''),
       cacheTTL = (case optCacheTTL opts of Some t \<Rightarrow> t | None \<Rightarrow> 24 * 60 * 60 * 1000),
       cache = Map.empty \<rparr>"

text \<open>
  What a call can throw: the two errors of \<open>estimateCost\<close>, a rejection of the HTTP
  request (passed on as it is), and the \<open>TypeError\<close> of reading a field of
  \<open>undefined\<close>. The dash of the second message is written as its three UTF-8 bytes.
\<close>

datatype error =
    PricingNotFound string string
  | UnsupportedInputCombination
  | RequestFailed string
  | TypeError

definition dquote :: char where
  "dquote = CHR 0x22"

definition apostrophe :: char where
  "apostrophe = CHR 0x27"

fun errorMessage :: "error \<Rightarrow> string" where
  "errorMessage (PricingNotFound mdl rgn) =
     ''Pricing for model '' @ [dquote] @ mdl @ [dquote]
       @ '' not found in region '' @ [dquote] @ rgn @ [dquote] @ ''.''"
| "errorMessage UnsupportedInputCombination =
     ''Unable to determine cost '' @ [CHR 0xE2, CHR 0x80, CHR 0x93]
       @ '' unsupported input combination.''"
| "errorMessage (RequestFailed msg) = msg"
| "errorMessage TypeError = ''TypeError''"

section \<open>The price normaliser\<close>

text \<open>\<^verbatim>\<open>/word/i.test(s)\<close> for a lower-case \<open>word\<close>.\<close>

definition testI :: "string \<Rightarrow> string \<Rightarrow> bool" where
  "testI word s = includesStr (toLowerCase s) word"

definition emptyMeters :: PriceMeters where
  "emptyMeters = \<lparr> inputUsd = None, outputUsd = None, imageUsd = None \<rparr>"

text \<open>
  One round of the loop over the fetched items. A key that \<open>extractModelKey\<close> returns
  never names a property that the table object inherits (see \<open>lookupMeters\<close> below), so
  \<^verbatim>\<open>!meters[modelKey]\<close> holds exactly when the table has no entry for the key.
\<close>

definition addItem :: "(string \<rightharpoonup> PriceMeters) \<Rightarrow> PriceItem \<Rightarrow> (string \<rightharpoonup> PriceMeters)" where
  "addItem tbl item =
     (let mName = (case meterName item of Some s \<Rightarrow> s | None \<Rightarrow> []);
          sName = (case skuName item of Some s \<Rightarrow> s | None \<Rightarrow> []);
          pricePerUnit = (case unitPrice item of Some p \<Rightarrow> p | None \<Rightarrow> 0)
      in case extractModelKey mName sName of
           None \<Rightarrow> tbl
         | Some modelKey \<Rightarrow>
             (let m = (case tbl modelKey of Some m \<Rightarrow> m | None \<Rightarrow> emptyMeters)
              in tbl(modelKey \<mapsto>
                   (if testI ''image'' mName then m\<lparr>imageUsd := Some (pricePerUnit / 100)\<rparr>
                    else if testI ''input'' mName \<or> testI ''prompt'' mName
                      then m\<lparr>inputUsd := Some pricePerUnit\<rparr>
                    else if testI ''output'' mName \<or> testI ''completion'' mName
                      then m\<lparr>outputUsd := Some pricePerUnit\<rparr>
                    else if testI ''embedding'' mName
                      then m\<lparr>inputUsd := Some pricePerUnit\<rparr>
                    else m))))"

definition buildMeters :: "PriceItem list \<Rightarrow> (string \<rightharpoonup> PriceMeters)" where
  "buildMeters allItems = foldl addItem Map.empty allItems"

section \<open>Fetching the price list\<close>

text \<open>\<open>encodeURIComponent\<close>: every character but the unreserved ones becomes
  \<open>%XX\<close>.\<close>

definition isUnreserved :: "char \<Rightarrow> bool" where
  "isUnreserved c =
     (isUpper c \<or> isLower c \<or> isDigit c \<or> c \<in> set ''-_.!~*()'' \<or> c = apostrophe)"

definition hexDigit :: "nat \<Rightarrow> char" where
  "hexDigit n = ''0123456789ABCDEF'' ! (n mod 16)"

definition encodeURIComponent :: "string \<Rightarrow> string" where
  "encodeURIComponent s =
     concat (map (\<lambda>c. if isUnreserved c then [c]
                       else [CHR ''%'', hexDigit (of_char c div 16), hexDigit (of_char c)]) s)"

definition pricingUrl :: "string \<Rightarrow> string \<Rightarrow> string" where
  "pricingUrl cur rgn =
     ''https://prices.azure.com/api/retail/prices'' @ ''?$filter=''
       @ encodeURIComponent
           (''serviceName eq '' @ [apostrophe] @ ''Azure OpenAI Service'' @ [apostrophe]
              @ '' and armRegionName eq '' @ [apostrophe] @ rgn @ [apostrophe]
              @ '' and currencyCode eq '' @ [apostrophe] @ cur @ [apostrophe])"

text \<open>
  The transport, \<open>axios.get\<close>, is a parameter: given the URLs requested so far and the
  URL of this request, it answers with a page or is rejected (\<open>Inl\<close>, with the
  rejection's message). The list of requested URLs is threaded through every call, so
  that a request that was issued is visible in it.

  The paging loop follows \<open>NextPageLink\<close> while it is a non-empty string. A server
  that never stops linking keeps it running: the result \<open>None\<close> stands for a call
  that does not return.
\<close>

type_synonym transport = "string list \<Rightarrow> string \<Rightarrow> string + AzurePriceApiResponse"

partial_function (option) fetchPages ::
  "transport \<Rightarrow> string option \<Rightarrow> PriceItem list \<Rightarrow> string list
     \<Rightarrow> ((error + PriceItem list) \<times> string list) option" where
  "fetchPages get nxt allItems reqs =
     (case nxt of
        None \<Rightarrow> Some (Inr allItems, reqs)
      | Some url \<Rightarrow>
          if url = [] then Some (Inr allItems, reqs)
          else
            (case get reqs url of
               Inl msg \<Rightarrow> Some (Inl (RequestFailed msg), reqs @ [url])
             | Inr data \<Rightarrow>
                 fetchPages get (NextPageLink data) (allItems @ Items data) (reqs @ [url])))"

declare fetchPages.simps [code]

definition fetchPricing ::
  "transport \<Rightarrow> string \<Rightarrow> string \<Rightarrow> string list
     \<Rightarrow> ((error + (string \<rightharpoonup> PriceMeters)) \<times> string list) option" where
  "fetchPricing get cur rgn reqs =
     (case fetchPages get (Some (pricingUrl cur rgn)) [] reqs of
        None \<Rightarrow> None
      | Some (Inl e, reqs') \<Rightarrow> Some (Inl e, reqs')
      | Some (Inr allItems, reqs') \<Rightarrow> Some (Inr (buildMeters allItems), reqs'))"

section \<open>The pricing cache\<close>

text \<open>
  \<open>ensurePricing\<close> reads the clock when it finds an entry (\<open>t1\<close>) and again, after
  the fetch, when it stores the new one (\<open>t2\<close>). A failed fetch leaves the cache as
  it is.
\<close>

definition ensurePricing ::
  "transport \<Rightarrow> int \<Rightarrow> int \<Rightarrow> estimator \<Rightarrow> string list \<Rightarrow> string
     \<Rightarrow> ((error + unit) \<times> estimator \<times> string list) option" where
  "ensurePricing get t1 t2 est reqs rgn =
     (if (case cache est rgn of
            Some cached \<Rightarrow> t1 - fetchedAt cached < cacheTTL est
          | None \<Rightarrow> False)
      then Some (Inr (), est, reqs)
      else
        (case fetchPricing get (currency est) rgn reqs of
           None \<Rightarrow> None
         | Some (Inl e, reqs') \<Rightarrow> Some (Inl e, est, reqs')
         | Some (Inr tbl, reqs') \<Rightarrow>
             Some (Inr (),
                   est\<lparr>cache := (cache est)(rgn \<mapsto> \<lparr> fetchedAt = t2, meters = tbl \<rparr>)\<rparr>,
                   reqs')))"

section \<open>The cost calculator\<close>

text \<open>
  \<^verbatim>\<open>pricing.meters[modelId]\<close> reads a property of a plain object: the table's own
  entry, or else what the object inherits. Of the inherited property names only
  \<open>constructor\<close> can be returned by \<open>canonicalModelId\<close>; its value is truthy and has
  none of the three price fields.
\<close>

definition lookupMeters :: "(string \<rightharpoonup> PriceMeters) \<Rightarrow> string \<Rightarrow> PriceMeters option" where
  "lookupMeters tbl k =
     (case tbl k of
        Some m \<Rightarrow> Some m
      | None \<Rightarrow> if k = ''constructor'' then Some emptyMeters else None)"

text \<open>The part of \<open>estimateCost\<close> that follows the lookup of the meters.\<close>

definition costOf :: "PriceMeters \<Rightarrow> CostInput \<Rightarrow> error + rat" where
  "costOf m input =
     (if inputUsd m \<noteq> None then
        (let inTok = (case promptTokens input of Some n \<Rightarrow> n | None \<Rightarrow> 0);
             outTok = (case completionTokens input of Some n \<Rightarrow> n | None \<Rightarrow> 0);
             costIn = (inTok / 1000) * (case inputUsd m of Some p \<Rightarrow> p | None \<Rightarrow> 0);
             costOut = (outTok / 1000) * (case outputUsd m of Some p \<Rightarrow> p | None \<Rightarrow> 0)
         in Inr (toFixed6 (costIn + costOut)))
      else if outputUsd m = None \<and> imageUsd m = None then
        (let inTok = (case promptTokens input of Some n \<Rightarrow> n | None \<Rightarrow> 0)
         in Inr (toFixed6 ((inTok / 1000) * (case inputUsd m of Some p \<Rightarrow> p | None \<Rightarrow> 0))))
      else
        (case imageUsd m of
           Some p \<Rightarrow>
             (let count = (case imageCount input of Some n \<Rightarrow> n | None \<Rightarrow> 1)
              in Inr (toFixed6 (count * p)))
         | None \<Rightarrow> Inl UnsupportedInputCombination))"

text \<open>The part of \<open>estimateCost\<close> that follows the read of the region's cache entry:
  the lookup of the model's meters in the entry's table, and the cost.\<close>

definition costFromTable :: "(string \<rightharpoonup> PriceMeters) \<Rightarrow> string \<Rightarrow> CostInput \<Rightarrow> error + rat" where
  "costFromTable tbl rgn input =
     (case lookupMeters tbl (canonicalModelId (model input)) of
        None \<Rightarrow> Inl (PricingNotFound (model input) rgn)
      | Some m \<Rightarrow> costOf m input)"

definition estimateCost ::
  "transport \<Rightarrow> int \<Rightarrow> int \<Rightarrow> estimator \<Rightarrow> string list \<Rightarrow> CostInput
     \<Rightarrow> ((error + rat) \<times> estimator \<times> string list) option" where
  "estimateCost get t1 t2 est reqs input =
     (let rgn = toLowerCase (region input)
      in case ensurePricing get t1 t2 est reqs rgn of
           None \<Rightarrow> None
         | Some (Inl e, est', reqs') \<Rightarrow> Some (Inl e, est', reqs')
         | Some (Inr u, est', reqs') \<Rightarrow>
             Some ((case cache est' rgn of
                      None \<Rightarrow> Inl TypeError
                    | Some pricing \<Rightarrow> costFromTable (meters pricing) rgn input),
                   est', reqs'))"

section \<open>A price list and an estimator for the examples\<close>

text \<open>Three of the records that the repository's test suite serves, on one page.\<close>

definition priceItem :: "string \<Rightarrow> string \<Rightarrow> rat \<Rightarrow> PriceItem" where
  "priceItem mName sName p = \<lparr> meterName = Some mName, skuName = Some sName, unitPrice = Some p \<rparr>"

definition exampleItems :: "PriceItem list" where
  "exampleItems =
     [priceItem ''GPT-4 Prompt Tokens'' ''GPT-4'' (3 / 100),
      priceItem ''GPT-4 Completion Tokens'' ''GPT-4'' (6 / 100),
      priceItem ''DALL-E Image'' ''DALL-E'' 20]"

text \<open>A server that answers every request with the same single page.\<close>

definition onePageServer :: "PriceItem list \<Rightarrow> transport" where
  "onePageServer items reqs url = Inr \<lparr> Items = items, NextPageLink = None \<rparr>"

definition exampleServer :: transport where
  "exampleServer = onePageServer exampleItems"

text \<open>A server whose only meter for GPT-4 names no billing dimension.\<close>

definition bareServer :: transport where
  "bareServer = onePageServer [priceItem ''GPT-4 Tokens'' ''Standard'' 1]"

definition defaultEstimator :: estimator where
  "defaultEstimator = newEstimator \<lparr> optCurrency = None, optCacheTTL = None \<rparr>"

text \<open>The default estimator after it has fetched the prices of \<open>eastus\<close> at time 1001.\<close>

definition warmEstimator :: estimator where
  "warmEstimator =
     defaultEstimator\<lparr>cache :=
       [''eastus'' \<mapsto> \<lparr> fetchedAt = 1001, meters = buildMeters exampleItems \<rparr>]\<rparr>"

definition costInput ::
  "string \<Rightarrow> string \<Rightarrow> rat option \<Rightarrow> rat option \<Rightarrow> rat option \<Rightarrow> CostInput" where
  "costInput rgn mdl p c i =
     \<lparr> region = rgn, model = mdl, promptTokens = p, completionTokens = c, imageCount = i \<rparr>"

section \<open>Basic facts\<close>

subsection \<open>Strings\<close>

lemma toLowerChar_idem: "toLowerChar (toLowerChar c) = toLowerChar c"
  by (simp add: toLowerChar_def isUpper_def)

lemma toLowerCase_idem: "toLowerCase (toLowerCase s) = toLowerCase s"
  by (simp add: toLowerCase_def toLowerChar_idem)

lemma includesStr_iff: "includesStr s sub \<longleftrightarrow> (\<exists>pre post. s = pre @ sub @ post)"
proof (induction s)
  case Nil
  then show ?case by auto
next
  case (Cons c cs)
  show ?case
  proof
    assume "includesStr (c # cs) sub"
    then consider "prefix sub (c # cs)" | "includesStr cs sub" by auto
    then show "\<exists>pre post. c # cs = pre @ sub @ post"
    proof cases
      case 1
      then obtain post where "c # cs = sub @ post" by (auto simp: prefix_def)
      then have "c # cs = [] @ sub @ post" by simp
      then show ?thesis by blast
    next
      case 2
      with Cons.IH obtain pre post where "cs = pre @ sub @ post" by blast
      then have "c # cs = (c # pre) @ sub @ post" by simp
      then show ?thesis by blast
    qed
  next
    assume "\<exists>pre post. c # cs = pre @ sub @ post"
    then obtain pre post where e: "c # cs = pre @ sub @ post" by blast
    show "includesStr (c # cs) sub"
    proof (cases pre)
      case Nil
      with e have "prefix sub (c # cs)" by (simp add: prefix_def)
      then show ?thesis by simp
    next
      case (Cons p ps)
      with e have "cs = ps @ sub @ post" by simp
      with Cons.IH have "includesStr cs sub" by blast
      then show ?thesis by simp
    qed
  qed
qed

subsection \<open>Requests, cache and cost\<close>

lemma fetchPages_reqs:
  assumes "fetchPages get nxt allItems reqs = Some y"
  shows "prefix reqs (snd y)"
proof (rule fetchPages.raw_induct
         [where P = "\<lambda>g n a q z. prefix q (snd z)", OF _ assms])
  fix fp :: "transport \<Rightarrow> string option \<Rightarrow> PriceItem list \<Rightarrow> string list
                \<Rightarrow> ((error + PriceItem list) \<times> string list) option"
    and g :: transport and n :: "string option" and a :: "PriceItem list"
    and q :: "string list" and z :: "(error + PriceItem list) \<times> string list"
  assume IH: "\<And>g' n' a' q' z'. fp g' n' a' q' = Some z' \<Longrightarrow> prefix q' (snd z')"
  assume step:
    "(case n of
        None \<Rightarrow> Some (Inr a, q)
      | Some url \<Rightarrow>
          if url = [] then Some (Inr a, q)
          else
            (case g q url of
               Inl msg \<Rightarrow> Some (Inl (RequestFailed msg), q @ [url])
             | Inr data \<Rightarrow> fp g (NextPageLink data) (a @ Items data) (q @ [url]))) = Some z"
  show "prefix q (snd z)"
  proof (cases n)
    case None
    with step show ?thesis by auto
  next
    case (Some url)
    show ?thesis
    proof (cases "url = []")
      case True
      with Some step show ?thesis by auto
    next
      case False
      show ?thesis
      proof (cases "g q url")
        case (Inl msg)
        with Some False step show ?thesis by auto
      next
        case (Inr data)
        with Some False step
        have "fp g (NextPageLink data) (a @ Items data) (q @ [url]) = Some z"
          by simp
        then have "prefix (q @ [url]) (snd z)" by (rule IH)
        then show ?thesis by (rule append_prefixD)
      qed
    qed
  qed
qed

lemma fetchPricing_reqs:
  assumes "fetchPricing get cur rgn reqs = Some (r, reqs')"
  shows "prefix (reqs @ [pricingUrl cur rgn]) reqs'"
proof -
  have ne: "pricingUrl cur rgn \<noteq> []" by (simp add: pricingUrl_def)
  from assms obtain y where y: "fetchPages get (Some (pricingUrl cur rgn)) [] reqs = Some y"
    and s: "snd y = reqs'"
    by (auto simp: fetchPricing_def split: option.splits sum.splits prod.splits)
  show ?thesis
  proof (cases "get reqs (pricingUrl cur rgn)")
    case (Inl msg)
    with y ne s show ?thesis by (subst (asm) fetchPages.simps) auto
  next
    case (Inr data)
    with y ne have "fetchPages get (NextPageLink data) ([] @ Items data) (reqs @ [pricingUrl cur rgn]) = Some y"
      by (subst (asm) fetchPages.simps) simp
    then have "prefix (reqs @ [pricingUrl cur rgn]) (snd y)" by (rule fetchPages_reqs)
    with s show ?thesis by simp
  qed
qed

lemma ensurePricing_fresh:
  "cache est rgn = Some e \<Longrightarrow> t1 - fetchedAt e < cacheTTL est
   \<Longrightarrow> ensurePricing get t1 t2 est reqs rgn = Some (Inr (), est, reqs)"
  by (simp add: ensurePricing_def)

lemma ensurePricing_refresh:
  "cache est rgn = None \<or> (\<exists>e. cache est rgn = Some e \<and> cacheTTL est \<le> t1 - fetchedAt e)
   \<Longrightarrow> fetchPricing get (currency est) rgn reqs = Some (Inr tbl, reqs')
   \<Longrightarrow> ensurePricing get t1 t2 est reqs rgn =
         Some (Inr (), est\<lparr>cache := (cache est)(rgn \<mapsto> \<lparr> fetchedAt = t2, meters = tbl \<rparr>)\<rparr>, reqs')"
  by (auto simp: ensurePricing_def)

lemma ensurePricing_entry:
  "ensurePricing get t1 t2 est reqs rgn = Some (Inr u, est', reqs') \<Longrightarrow> \<exists>e. cache est' rgn = Some e"
  by (auto simp: ensurePricing_def split: option.splits if_splits sum.splits prod.splits)

lemma estimateCost_after_ensure:
  "ensurePricing get t1 t2 est reqs (toLowerCase (region input)) = Some (Inr u, est', reqs')
   \<Longrightarrow> cache est' (toLowerCase (region input)) = Some e
   \<Longrightarrow> estimateCost get t1 t2 est reqs input =
         Some (costFromTable (meters e) (toLowerCase (region input)) input, est', reqs')"
  by (simp add: estimateCost_def)

lemma costOf_region: "costOf m (input\<lparr>region := r\<rparr>) = costOf m input"
  by (simp add: costOf_def Let_def cong: option.case_cong)

lemma costFromTable_region:
  "costFromTable tbl rgn (input\<lparr>region := r\<rparr>) = costFromTable tbl rgn input"
  by (simp add: costFromTable_def costOf_region cong: option.case_cong)

lemma estimateCost_region:
  "estimateCost get t1 t2 est reqs input =
   estimateCost get t1 t2 est reqs (input\<lparr>region := toLowerCase (region input)\<rparr>)"
  by (simp add: estimateCost_def Let_def toLowerCase_idem costFromTable_region
        cong: option.case_cong sum.case_cong prod.case_cong)

subsection \<open>Rounding to six decimal places\<close>

lemma round6_int: "\<lfloor>(of_int k :: rat) + 1 / 2\<rfloor> = k"
  by (rule floor_unique) simp_all





subsection \<open>The o-family pattern on digit strings\<close>

lemma isDigit_facts:
  assumes "isDigit c"
  shows "\<not> isUpper c" "\<not> isSep c" "c \<noteq> CHR ''o''" "toLowerChar c = c"
  using assms by (auto simp: isDigit_def isUpper_def isSep_def toLowerChar_def)

lemma toLowerCase_digits: "\<forall>c \<in> set v. isDigit c \<Longrightarrow> toLowerCase v = v"
  by (induction v) (simp_all add: toLowerCase_def isDigit_facts)

lemma toLowerCase_append: "toLowerCase (a @ b) = toLowerCase a @ toLowerCase b"
  by (simp add: toLowerCase_def)

lemma toLowerCase_Cons: "toLowerCase (c # s) = toLowerChar c # toLowerCase s"
  by (simp add: toLowerCase_def)

lemma oVersion_digits:
  assumes "v \<noteq> []" and "\<forall>c \<in> set v. isDigit c" and "takeWhile isDigit s = []"
  shows "oVersion (v @ s) = Some v"
proof -
  from assms(1) obtain d ds where v: "v = d # ds" by (cases v) auto
  with assms(2) have "\<not> isSep d" by (simp add: isDigit_facts)
  moreover from assms(2,3) have "takeWhile isDigit (v @ s) = v" by (simp add: takeWhile_append2)
  ultimately show ?thesis using assms(1) v by (simp add: oVersion_def)
qed

lemma oVersion_sep_digits:
  assumes "isSep x" and "v \<noteq> []" and "\<forall>c \<in> set v. isDigit c" and "takeWhile isDigit s = []"
  shows "oVersion (x # v @ s) = Some v"
proof -
  from assms(3,4) have "takeWhile isDigit (v @ s) = v" by (simp add: takeWhile_append2)
  with assms(1,2) show ?thesis by (simp add: oVersion_def)
qed

lemma includesStr_set: "includesStr s sub \<Longrightarrow> set sub \<subseteq> set s"
  unfolding includesStr_iff by auto

lemma canonical_o_family:
  assumes "toLowerCase mdl = s" and "oFamilyMatch s = Some v"
  shows "canonicalModelId mdl = ''o'' @ v @ (if includesStr s ''mini'' then ''-mini'' else '''')"
  using assms by (simp add: canonicalModelId_def)

lemma no_mini:
  assumes "\<forall>c \<in> set v. isDigit c" and "CHR ''m'' \<notin> set p"
  shows "\<not> includesStr (p @ v) ''mini''"
proof
  assume "includesStr (p @ v) ''mini''"
  then have "CHR ''m'' \<in> set (p @ v)" by (auto dest: includesStr_set)
  with assms(2) have "CHR ''m'' \<in> set v" by simp
  with assms(1) have "isDigit (CHR ''m'')" by blast
  then show False by (simp add: isDigit_def)
qed

lemma has_mini: "includesStr (p @ ''mini'') ''mini''"
  unfolding includesStr_iff by (rule exI [of _ p], rule exI [of _ "[]"]) simp

lemma scan_o:
  assumes "v \<noteq> []" and "\<forall>c \<in> set v. isDigit c" and "takeWhile isDigit s = []"
  shows "oFamilyScan False (CHR ''o'' # v @ s) = Some v"
  using oVersion_digits [OF assms] by simp

lemma scan_o_sep:
  assumes "isSep x" and "v \<noteq> []" and "\<forall>c \<in> set v. isDigit c" and "takeWhile isDigit s = []"
  shows "oFamilyScan False (CHR ''o'' # x # v @ s) = Some v"
  using oVersion_sep_digits [OF assms] by simp

lemma scan_openai:
  assumes "x = CHR ''-'' \<or> x = CHR ''.''"
  shows "oFamilyScan False (''openai'' @ x # rest) = oFamilyScan False rest"
  using assms
  by (auto simp: oVersion_def isSep_def isDigit_def isWordChar_def isUpper_def isLower_def)

subsection \<open>Keys of the vendor path\<close>

text \<open>A key of the vendor path never names the one inherited property that
  \<open>lookupMeters\<close> accounts for.\<close>

lemma oVersion_digit: "oVersion rest = Some v \<Longrightarrow> v \<noteq> [] \<and> isDigit (hd v)"
proof -
  assume a: "oVersion rest = Some v"
  define r where "r = (case rest of [] \<Rightarrow> [] | c # cs \<Rightarrow> if isSep c then cs else rest)"
  from a have v: "v = takeWhile isDigit r" and ne: "takeWhile isDigit r \<noteq> []"
    by (auto simp: oVersion_def Let_def r_def split: if_splits)
  from ne have "hd (takeWhile isDigit r) \<in> set (takeWhile isDigit r)" by simp
  then have "isDigit (hd (takeWhile isDigit r))" by (rule set_takeWhileD [THEN conjunct2])
  with v ne show ?thesis by simp
qed

lemma oFamilyScan_digit: "oFamilyScan p s = Some v \<Longrightarrow> v \<noteq> [] \<and> isDigit (hd v)"
  by (induction p s rule: oFamilyScan.induct)
     (auto split: if_splits option.splits dest: oVersion_digit)

lemma extractModelKey_not_constructor: "extractModelKey mName sName \<noteq> Some ''constructor''"
proof
  assume a: "extractModelKey mName sName = Some ''constructor''"
  let ?src = "toLowerCase (mName @ '' '' @ sName)"
  show False
  proof (cases "oFamilyMatch ?src")
    case (Some v)
    from Some have "v \<noteq> [] \<and> isDigit (hd v)"
      unfolding oFamilyMatch_def by (rule oFamilyScan_digit)
    moreover from a Some have "hd v = CHR ''o''"
      by (cases v) (auto simp: extractModelKey_def Let_def)
    ultimately show False by (simp add: isDigit_def)
  next
    case None
    with a show False
      by (auto simp: extractModelKey_def Let_def split: if_splits option.splits prod.splits)
  qed
qed

subsection \<open>What a call returns\<close>

lemma pricingUrl_nonempty: "pricingUrl cur rgn \<noteq> []"
  by (simp add: pricingUrl_def)

lemma fetchPricing_one_page:
  assumes "get reqs (pricingUrl cur rgn) = Inr \<lparr> Items = items, NextPageLink = None \<rparr>"
  shows "fetchPricing get cur rgn reqs = Some (Inr (buildMeters items), reqs @ [pricingUrl cur rgn])"
proof -
  have "fetchPages get None ([] @ items) (reqs @ [pricingUrl cur rgn])
          = Some (Inr ([] @ items), reqs @ [pricingUrl cur rgn])"
    by (subst fetchPages.simps) simp
  with assms have "fetchPages get (Some (pricingUrl cur rgn)) [] reqs
          = Some (Inr items, reqs @ [pricingUrl cur rgn])"
    by (subst fetchPages.simps) (simp add: pricingUrl_nonempty)
  then show ?thesis by (simp add: fetchPricing_def)
qed

lemma fetchPages_error:
  assumes "fetchPages get nxt allItems reqs = Some y"
  shows "\<forall>e. fst y = Inl e \<longrightarrow> (\<exists>msg. e = RequestFailed msg)"
proof (rule fetchPages.raw_induct
         [where P = "\<lambda>g n a q z. \<forall>e. fst z = Inl e \<longrightarrow> (\<exists>msg. e = RequestFailed msg)", OF _ assms])
  fix fp :: "transport \<Rightarrow> string option \<Rightarrow> PriceItem list \<Rightarrow> string list
                \<Rightarrow> ((error + PriceItem list) \<times> string list) option"
    and g :: transport and n :: "string option" and a :: "PriceItem list"
    and q :: "string list" and z :: "(error + PriceItem list) \<times> string list"
  assume IH: "\<And>g' n' a' q' z'. fp g' n' a' q' = Some z'
                \<Longrightarrow> \<forall>e. fst z' = Inl e \<longrightarrow> (\<exists>msg. e = RequestFailed msg)"
  assume step:
    "(case n of
        None \<Rightarrow> Some (Inr a, q)
      | Some url \<Rightarrow>
          if url = [] then Some (Inr a, q)
          else
            (case g q url of
               Inl msg \<Rightarrow> Some (Inl (RequestFailed msg), q @ [url])
             | Inr data \<Rightarrow> fp g (NextPageLink data) (a @ Items data) (q @ [url]))) = Some z"
  show "\<forall>e. fst z = Inl e \<longrightarrow> (\<exists>msg. e = RequestFailed msg)"
  proof (cases n)
    case None
    with step show ?thesis by auto
  next
    case (Some url)
    show ?thesis
    proof (cases "url = []")
      case True
      with Some step show ?thesis by auto
    next
      case False
      show ?thesis
      proof (cases "g q url")
        case (Inl msg)
        with Some False step show ?thesis by auto
      next
        case (Inr data)
        with Some False step
        have "fp g (NextPageLink data) (a @ Items data) (q @ [url]) = Some z"
          by simp
        then show ?thesis by (rule IH)
      qed
    qed
  qed
qed

lemma ensurePricing_error:
  assumes "ensurePricing get t1 t2 est reqs rgn = Some (Inl e, est', reqs')"
  shows "\<exists>msg. e = RequestFailed msg"
proof -
  from assms obtain y where y: "fetchPages get (Some (pricingUrl (currency est) rgn)) [] reqs = Some y"
    and e: "fst y = Inl e"
    by (auto simp: ensurePricing_def fetchPricing_def
             split: option.splits if_splits sum.splits prod.splits)
  from fetchPages_error [OF y] e show ?thesis by blast
qed

lemma costFromTable_not_RequestFailed: "costFromTable tbl rgn input \<noteq> Inl (RequestFailed msg)"
  by (simp add: costFromTable_def costOf_def Let_def split: option.splits)

lemma estimateCost_cases:
  assumes "estimateCost get t1 t2 est reqs input = Some (r, est', reqs')"
  shows "(\<exists>msg. r = Inl (RequestFailed msg)
            \<and> ensurePricing get t1 t2 est reqs (toLowerCase (region input))
                = Some (Inl (RequestFailed msg), est', reqs'))
         \<or> (\<exists>e. ensurePricing get t1 t2 est reqs (toLowerCase (region input))
                    = Some (Inr (), est', reqs')
                \<and> cache est' (toLowerCase (region input)) = Some e
                \<and> r = costFromTable (meters e) (toLowerCase (region input)) input)"
proof (cases "ensurePricing get t1 t2 est reqs (toLowerCase (region input))")
  case None
  with assms show ?thesis by (simp add: estimateCost_def)
next
  case (Some p)
  obtain o' est1 reqs1 where p: "p = (o', est1, reqs1)" by (cases p)
  show ?thesis
  proof (cases o')
    case (Inl e)
    with Some p ensurePricing_error obtain msg where "e = RequestFailed msg" by blast
    with assms Some p Inl show ?thesis by (simp add: estimateCost_def)
  next
    case (Inr u)
    with Some p ensurePricing_entry obtain e where "cache est1 (toLowerCase (region input)) = Some e"
      by blast
    with assms Some p Inr show ?thesis by (simp add: estimateCost_def)
  qed
qed

subsection \<open>The examples\<close>

lemma toLowerCase_EastUS: "toLowerCase ''EastUS'' = ''eastus''"
  by code_simp

lemma defaultEstimator_simps:
  "currency defaultEstimator = ''USD''" "cacheTTL defaultEstimator = 86400000"
  "cache defaultEstimator = Map.empty"
  by (simp_all add: defaultEstimator_def newEstimator_def)

lemma warmEstimator_simps:
  "currency warmEstimator = ''USD''" "cacheTTL warmEstimator = 86400000"
  "cache warmEstimator ''eastus'' = Some \<lparr> fetchedAt = 1001, meters = buildMeters exampleItems \<rparr>"
  by (simp_all add: warmEstimator_def defaultEstimator_simps)

lemma exampleServer_fetch:
  "fetchPricing exampleServer cur rgn reqs
     = Some (Inr (buildMeters exampleItems), reqs @ [pricingUrl cur rgn])"
  by (rule fetchPricing_one_page) (simp add: exampleServer_def onePageServer_def)





text \<open>Meters with no field set cost nothing, whatever the input.\<close>

lemma costOf_emptyMeters: "costOf emptyMeters input = Inr 0"
  using round6_int [of 0] by (simp add: costOf_def emptyMeters_def toFixed6_def)


lemma ensure_default_example:
  "ensurePricing exampleServer 1000 1001 defaultEstimator [] ''eastus''
     = Some (Inr (), warmEstimator, [pricingUrl ''USD'' ''eastus''])"
  by (simp add: ensurePricing_def defaultEstimator_simps exampleServer_fetch warmEstimator_def)


lemma costFromTable_PricingNotFound:
  "costFromTable tbl rgn input = Inl (PricingNotFound mdl r) \<Longrightarrow> mdl = model input \<and> r = rgn"
  by (auto simp: costFromTable_def costOf_def Let_def split: option.splits if_splits)

lemma example_unknown_model:
  "costFromTable (buildMeters exampleItems) ''eastus''
     (costInput ''EastUS'' ''non-existent-model'' (Some 100) None None)
   = Inl (PricingNotFound ''non-existent-model'' ''eastus'')"
  by code_simp

lemma example_gpt4_cost:
  "costFromTable (buildMeters exampleItems) ''eastus''
     (costInput ''EastUS'' ''gpt-4'' (Some 500) (Some 200) None) = Inr (27 / 1000)"
  by code_simp

lemma example_gpt4_cost_lower:
  "costFromTable (buildMeters exampleItems) ''eastus''
     (costInput ''eastus'' ''gpt-4'' (Some 500) (Some 200) None) = Inr (27 / 1000)"
  by code_simp

section \<open>Agreement of the two canonicalisation paths\<close>

text \<open>
  Claim C1. The claim is that every text containing \<open>dall-e\<close>, in any letter case,
  gets the key \<open>dall-e\<close> on both paths, so that the user input \<open>dall-e-3\<close> maps to
  \<open>dall-e\<close>. The vendor path has the rule; \<open>canonicalModelId\<close> has none, and its
  fallback keeps the version suffix: the two paths disagree on the README's own example,
  and the request for \<open>dall-e-3\<close> ends in PricingNotFound although the price list has
  a DALL-E meter.
\<close>

theorem dall_e_paths_disagree:
  "extractModelKey ''DALL-E Image'' ''DALL-E'' = Some ''dall-e''
   \<and> canonicalModelId ''dall-e-3'' = ''dall-e-3''
   \<and> map_option fst
        (estimateCost exampleServer 1000 1001 defaultEstimator []
           (costInput ''eastus'' ''dall-e-3'' None None (Some 5)))
      = Some (Inl (PricingNotFound ''dall-e-3'' ''eastus''))"
  by code_simp

text \<open>
  Claim C2. On the user path every spelling of the same o-family version and
  mini-ness gets the same key. For every version \<open>v\<close>, a non-empty string of digits:
  \<open>o\<close>\<open>v\<close>, \<open>O\<close>\<open>v\<close>, \<open>o-\<close>\<open>v\<close>, \<open>o \<close>\<open>v\<close>, \<open>OpenAI-o\<close>\<open>v\<close> and \<open>openai.o\<close>\<open>v\<close>
  all become \<open>o\<close>\<open>v\<close>, and \<open>o\<close>\<open>v\<close>\<open>-mini\<close>, \<open>o\<close>\<open>v\<close>\<open>mini\<close>, \<open>o-\<close>\<open>v\<close>\<open>-mini\<close> and
  \<open>o \<close>\<open>v\<close>\<open> mini\<close> all become \<open>o\<close>\<open>v\<close>\<open>-mini\<close>. At \<open>v = 3\<close> these are the ten spellings
  of the claim.
\<close>

theorem canonicalModelId_o_family_spellings:
  assumes ne: "v \<noteq> []" and digits: "list_all isDigit v"
  shows "canonicalModelId (''o'' @ v) = ''o'' @ v
       \<and> canonicalModelId (''O'' @ v) = ''o'' @ v
       \<and> canonicalModelId (''o-'' @ v) = ''o'' @ v
       \<and> canonicalModelId (''o '' @ v) = ''o'' @ v
       \<and> canonicalModelId (''OpenAI-o'' @ v) = ''o'' @ v
       \<and> canonicalModelId (''openai.o'' @ v) = ''o'' @ v
       \<and> canonicalModelId (''o'' @ v @ ''-mini'') = ''o'' @ v @ ''-mini''
       \<and> canonicalModelId (''o'' @ v @ ''mini'') = ''o'' @ v @ ''-mini''
       \<and> canonicalModelId (''o-'' @ v @ ''-mini'') = ''o'' @ v @ ''-mini''
       \<and> canonicalModelId (''o '' @ v @ '' mini'') = ''o'' @ v @ ''-mini''"
proof -
  from digits have all: "\<forall>c \<in> set v. isDigit c" by (simp add: list_all_iff)
  note assms = ne all
  note lv = toLowerCase_digits [OF all]
  have lits: "toLowerCase ''o'' = ''o''" "toLowerCase ''O'' = ''o''" "toLowerCase ''o-'' = ''o-''"
    "toLowerCase ''o '' = ''o ''" "toLowerCase ''OpenAI-o'' = ''openai-o''"
    "toLowerCase ''openai.o'' = ''openai.o''" "toLowerCase ''-mini'' = ''-mini''"
    "toLowerCase ''mini'' = ''mini''" "toLowerCase '' mini'' = '' mini''"
    by code_simp+
  have low: "toLowerCase (p @ v @ q) = toLowerCase p @ v @ toLowerCase q" for p q
    by (simp only: toLowerCase_append lv)
  have low': "toLowerCase (p @ v) = toLowerCase p @ v" for p
    by (simp only: toLowerCase_append lv)
  have tw: "takeWhile isDigit [] = []" "takeWhile isDigit ''-mini'' = []"
    "takeWhile isDigit ''mini'' = []" "takeWhile isDigit '' mini'' = []"
    by code_simp+
  have sep: "isSep (CHR ''-'')" "isSep (CHR '' '')" by (simp_all add: isSep_def)
  have plain: "canonicalModelId mdl = ''o'' @ v"
    if "toLowerCase mdl = p @ v" and "oFamilyMatch (p @ v) = Some v" and "CHR ''m'' \<notin> set p"
    for mdl p
    using canonical_o_family [OF that(1,2)] no_mini [OF assms(2) that(3)] by simp
  have mini: "canonicalModelId mdl = ''o'' @ v @ ''-mini''"
    if "toLowerCase mdl = p @ ''mini''" and "oFamilyMatch (p @ ''mini'') = Some v"
    for mdl p
    using canonical_o_family [OF that(1,2)] has_mini [of p] by simp
  have 1: "canonicalModelId (''o'' @ v) = ''o'' @ v"
  proof (rule plain [of _ "''o''"])
    show "toLowerCase (''o'' @ v) = ''o'' @ v" by (simp only: low' lits)
    show "oFamilyMatch (''o'' @ v) = Some v"
      using scan_o [OF assms tw(1)] by (simp add: oFamilyMatch_def)
  qed simp
  have 2: "canonicalModelId (''O'' @ v) = ''o'' @ v"
  proof (rule plain [of _ "''o''"])
    show "toLowerCase (''O'' @ v) = ''o'' @ v" by (simp only: low' lits)
    show "oFamilyMatch (''o'' @ v) = Some v"
      using scan_o [OF assms tw(1)] by (simp add: oFamilyMatch_def)
  qed simp
  have 3: "canonicalModelId (''o-'' @ v) = ''o'' @ v"
  proof (rule plain [of _ "''o-''"])
    show "toLowerCase (''o-'' @ v) = ''o-'' @ v" by (simp only: low' lits)
    show "oFamilyMatch (''o-'' @ v) = Some v"
      using scan_o_sep [OF sep(1) assms tw(1)] by (simp add: oFamilyMatch_def)
  qed simp
  have 4: "canonicalModelId (''o '' @ v) = ''o'' @ v"
  proof (rule plain [of _ "''o ''"])
    show "toLowerCase (''o '' @ v) = ''o '' @ v" by (simp only: low' lits)
    show "oFamilyMatch (''o '' @ v) = Some v"
      using scan_o_sep [OF sep(2) assms tw(1)] by (simp add: oFamilyMatch_def)
  qed simp
  have 5: "canonicalModelId (''OpenAI-o'' @ v) = ''o'' @ v"
  proof (rule plain [of _ "''openai-o''"])
    show "toLowerCase (''OpenAI-o'' @ v) = ''openai-o'' @ v" by (simp only: low' lits)
    have "oFamilyScan False (''openai'' @ CHR ''-'' # CHR ''o'' # v @ [])
            = oFamilyScan False (CHR ''o'' # v @ [])"
      by (rule scan_openai) simp
    with scan_o [OF assms tw(1)] show "oFamilyMatch (''openai-o'' @ v) = Some v"
      by (simp add: oFamilyMatch_def)
  qed simp
  have 6: "canonicalModelId (''openai.o'' @ v) = ''o'' @ v"
  proof (rule plain [of _ "''openai.o''"])
    show "toLowerCase (''openai.o'' @ v) = ''openai.o'' @ v" by (simp only: low' lits)
    have "oFamilyScan False (''openai'' @ CHR ''.'' # CHR ''o'' # v @ [])
            = oFamilyScan False (CHR ''o'' # v @ [])"
      by (rule scan_openai) simp
    with scan_o [OF assms tw(1)] show "oFamilyMatch (''openai.o'' @ v) = Some v"
      by (simp add: oFamilyMatch_def)
  qed simp
  have 7: "canonicalModelId (''o'' @ v @ ''-mini'') = ''o'' @ v @ ''-mini''"
  proof (rule mini [of _ "''o'' @ v @ ''-''"])
    show "toLowerCase (''o'' @ v @ ''-mini'') = (''o'' @ v @ ''-'') @ ''mini''"
      by (simp only: low lits) simp
    show "oFamilyMatch ((''o'' @ v @ ''-'') @ ''mini'') = Some v"
      using scan_o [OF assms tw(2)] by (simp add: oFamilyMatch_def)
  qed
  have 8: "canonicalModelId (''o'' @ v @ ''mini'') = ''o'' @ v @ ''-mini''"
  proof (rule mini [of _ "''o'' @ v"])
    show "toLowerCase (''o'' @ v @ ''mini'') = (''o'' @ v) @ ''mini''"
      by (simp only: low lits) simp
    show "oFamilyMatch ((''o'' @ v) @ ''mini'') = Some v"
      using scan_o [OF assms tw(3)] by (simp add: oFamilyMatch_def)
  qed
  have 9: "canonicalModelId (''o-'' @ v @ ''-mini'') = ''o'' @ v @ ''-mini''"
  proof (rule mini [of _ "''o-'' @ v @ ''-''"])
    show "toLowerCase (''o-'' @ v @ ''-mini'') = (''o-'' @ v @ ''-'') @ ''mini''"
      by (simp only: low lits) simp
    show "oFamilyMatch ((''o-'' @ v @ ''-'') @ ''mini'') = Some v"
      using scan_o_sep [OF sep(1) assms tw(2)] by (simp add: oFamilyMatch_def)
  qed
  have 10: "canonicalModelId (''o '' @ v @ '' mini'') = ''o'' @ v @ ''-mini''"
  proof (rule mini [of _ "''o '' @ v @ '' ''"])
    show "toLowerCase (''o '' @ v @ '' mini'') = (''o '' @ v @ '' '') @ ''mini''"
      by (simp only: low lits) simp
    show "oFamilyMatch ((''o '' @ v @ '' '') @ ''mini'') = Some v"
      using scan_o_sep [OF sep(2) assms tw(4)] by (simp add: oFamilyMatch_def)
  qed
  from 1 2 3 4 5 6 7 8 9 10 show ?thesis by blast
qed

theorem canonicalModelId_o_family_spellings_witness:
  "''3'' \<noteq> [] \<and> list_all isDigit ''3''
   \<and> canonicalModelId ''o3'' = ''o3'' \<and> canonicalModelId ''O3'' = ''o3''
   \<and> canonicalModelId ''o-3'' = ''o3'' \<and> canonicalModelId ''o 3'' = ''o3''
   \<and> canonicalModelId ''OpenAI-o3'' = ''o3'' \<and> canonicalModelId ''openai.o3'' = ''o3''
   \<and> canonicalModelId ''o3-mini'' = ''o3-mini'' \<and> canonicalModelId ''o3mini'' = ''o3-mini''
   \<and> canonicalModelId ''o-3-mini'' = ''o3-mini'' \<and> canonicalModelId ''o 3 mini'' = ''o3-mini''"
proof -
  have a: "''3'' \<noteq> []" by simp
  have b: "list_all isDigit ''3''" by (simp add: isDigit_def)
  from a b canonicalModelId_o_family_spellings [OF a b] show ?thesis by simp
qed

text \<open>
  Claim C3. The claim is that each of the four spellings \<open>gpt-3.5\<close>, \<open>gpt3.5\<close>,
  \<open>gpt-35\<close> and \<open>gpt35\<close> gets the key \<open>gpt-35-turbo\<close> on both paths. Each path
  tests two of the four only: \<open>canonicalModelId\<close> the dotted ones, \<open>extractModelKey\<close>
  the undotted ones. The user input \<open>gpt35\<close> falls through to the fallback, and vendor
  text spelled \<open>GPT-3.5 Turbo\<close> falls through to the generic GPT pattern, which
  yields \<open>gpt-35\<close>.
\<close>

theorem gpt35_paths_disagree:
  "canonicalModelId ''gpt35'' = ''gpt35''
   \<and> extractModelKey ''gpt35 Prompt Tokens'' ''Standard'' = Some ''gpt-35-turbo''
   \<and> canonicalModelId ''gpt-3.5-turbo'' = ''gpt-35-turbo''
   \<and> extractModelKey ''GPT-3.5 Turbo Prompt Tokens'' ''Standard'' = Some ''gpt-35''"
  by code_simp

section \<open>The cache\<close>

text \<open>
  Claim C4. For an estimate request at clock reading \<open>t1\<close> on the (lower-cased)
  region: when the cache holds an entry \<open>e\<close> for the region with
  \<open>t1 - fetchedAt e < cacheTTL\<close>, the request is answered from the table of \<open>e\<close>, the
  estimator is left as it was and no request is issued; when the entry is absent or
  \<open>cacheTTL \<le> t1 - fetchedAt e\<close>, and the fetch returns a table, the entry becomes
  the pair of the clock reading \<open>t2\<close> taken at the store and exactly the fetched table
  (the fetch has no access to the cache, so nothing of the old table survives), the
  request is answered from that table, and the first URL requested is the region's
  pricing URL.
\<close>

theorem cache_entry_reused_or_replaced:
  "(cache est (toLowerCase (region input)) = Some e \<and> t1 - fetchedAt e < cacheTTL est \<longrightarrow>
      estimateCost get t1 t2 est reqs input
        = Some (costFromTable (meters e) (toLowerCase (region input)) input, est, reqs))
   \<and> ((cache est (toLowerCase (region input)) = None
          \<or> (cache est (toLowerCase (region input)) = Some e \<and> cacheTTL est \<le> t1 - fetchedAt e))
        \<and> fetchPricing get (currency est) (toLowerCase (region input)) reqs = Some (Inr tbl, reqs') \<longrightarrow>
      estimateCost get t1 t2 est reqs input
        = Some (costFromTable tbl (toLowerCase (region input)) input,
                est\<lparr>cache := (cache est)(toLowerCase (region input)
                                  \<mapsto> \<lparr> fetchedAt = t2, meters = tbl \<rparr>)\<rparr>,
                reqs')
      \<and> prefix (reqs @ [pricingUrl (currency est) (toLowerCase (region input))]) reqs')"
proof (intro conjI impI)
  assume "cache est (toLowerCase (region input)) = Some e \<and> t1 - fetchedAt e < cacheTTL est"
  then have c: "cache est (toLowerCase (region input)) = Some e"
    and f: "t1 - fetchedAt e < cacheTTL est" by simp_all
  from ensurePricing_fresh [OF c f] c
  show "estimateCost get t1 t2 est reqs input
          = Some (costFromTable (meters e) (toLowerCase (region input)) input, est, reqs)"
    by (rule estimateCost_after_ensure)
next
  assume a: "(cache est (toLowerCase (region input)) = None
          \<or> (cache est (toLowerCase (region input)) = Some e \<and> cacheTTL est \<le> t1 - fetchedAt e))
        \<and> fetchPricing get (currency est) (toLowerCase (region input)) reqs = Some (Inr tbl, reqs')"
  then have s: "cache est (toLowerCase (region input)) = None
      \<or> (\<exists>e. cache est (toLowerCase (region input)) = Some e \<and> cacheTTL est \<le> t1 - fetchedAt e)"
    and f: "fetchPricing get (currency est) (toLowerCase (region input)) reqs = Some (Inr tbl, reqs')"
    by blast+
  let ?est' = "est\<lparr>cache := (cache est)(toLowerCase (region input)
                                  \<mapsto> \<lparr> fetchedAt = t2, meters = tbl \<rparr>)\<rparr>"
  have "cache ?est' (toLowerCase (region input)) = Some \<lparr> fetchedAt = t2, meters = tbl \<rparr>"
    by simp
  with ensurePricing_refresh [OF s f]
  have "estimateCost get t1 t2 est reqs input
          = Some (costFromTable (meters \<lparr> fetchedAt = t2, meters = tbl \<rparr>)
                    (toLowerCase (region input)) input, ?est', reqs')"
    by (rule estimateCost_after_ensure)
  then show "estimateCost get t1 t2 est reqs input
          = Some (costFromTable tbl (toLowerCase (region input)) input, ?est', reqs')"
    by simp
  from f show "prefix (reqs @ [pricingUrl (currency est) (toLowerCase (region input))]) reqs'"
    by (rule fetchPricing_reqs)
qed

theorem cache_entry_reused_or_replaced_witness:
  "cache warmEstimator (toLowerCase ''EastUS'')
      = Some \<lparr> fetchedAt = 1001, meters = buildMeters exampleItems \<rparr>
   \<and> 2000 - 1001 < cacheTTL warmEstimator
   \<and> estimateCost exampleServer 2000 2001 warmEstimator []
        (costInput ''EastUS'' ''gpt-4'' (Some 500) (Some 200) None)
      = Some (costFromTable (buildMeters exampleItems) ''eastus''
                (costInput ''EastUS'' ''gpt-4'' (Some 500) (Some 200) None),
              warmEstimator, [])
   \<and> cacheTTL warmEstimator \<le> 86401001 - 1001
   \<and> fetchPricing exampleServer (currency warmEstimator) (toLowerCase ''EastUS'') []
      = Some (Inr (buildMeters exampleItems), [pricingUrl ''USD'' ''eastus''])
   \<and> estimateCost exampleServer 86401001 86401002 warmEstimator []
        (costInput ''EastUS'' ''gpt-4'' (Some 500) (Some 200) None)
      = Some (costFromTable (buildMeters exampleItems) ''eastus''
                (costInput ''EastUS'' ''gpt-4'' (Some 500) (Some 200) None),
              warmEstimator\<lparr>cache := (cache warmEstimator)(''eastus''
                 \<mapsto> \<lparr> fetchedAt = 86401002, meters = buildMeters exampleItems \<rparr>)\<rparr>,
              [pricingUrl ''USD'' ''eastus''])"
proof -
  let ?input = "costInput ''EastUS'' ''gpt-4'' (Some 500) (Some 200) None"
  let ?e = "\<lparr> fetchedAt = 1001, meters = buildMeters exampleItems \<rparr>"
  have r: "region ?input = ''EastUS''" by (simp add: costInput_def)
  have c: "cache warmEstimator (toLowerCase (region ?input)) = Some ?e"
    by (simp add: r toLowerCase_EastUS warmEstimator_simps)
  have f: "fetchPricing exampleServer (currency warmEstimator) (toLowerCase (region ?input)) []
      = Some (Inr (buildMeters exampleItems), [pricingUrl ''USD'' ''eastus''])"
    by (simp add: r toLowerCase_EastUS warmEstimator_simps exampleServer_fetch)
  have fresh: "2000 - fetchedAt ?e < cacheTTL warmEstimator"
    by (simp add: warmEstimator_simps)
  have stale: "cacheTTL warmEstimator \<le> 86401001 - fetchedAt ?e"
    by (simp add: warmEstimator_simps)
  note reuse = cache_entry_reused_or_replaced
    [where est = warmEstimator and input = ?input and e = ?e and ?t1.0 = 2000
       and get = exampleServer and ?t2.0 = 2001 and reqs = "[]",
     THEN conjunct1, rule_format, OF conjI [OF c fresh]]
  note replace = cache_entry_reused_or_replaced
    [where est = warmEstimator and input = ?input and e = ?e and ?t1.0 = 86401001
       and get = exampleServer and ?t2.0 = 86401002 and reqs = "[]"
       and tbl = "buildMeters exampleItems" and reqs' = "[pricingUrl ''USD'' ''eastus'']",
     THEN conjunct2, rule_format, OF conjI [OF disjI2 [OF conjI [OF c stale]] f],
     THEN conjunct1]
  from c f fresh stale reuse replace show ?thesis
    by (simp add: r toLowerCase_EastUS)
qed

section \<open>The cost formulas\<close>







text \<open>
  Claim C7. The claim is that meters with none of \<open>inputUsd\<close>, \<open>outputUsd\<close> and
  \<open>imageUsd\<close> make \<open>estimateCost\<close> fail. They do not: the branch commented as the
  embedding branch tests only that \<open>outputUsd\<close> and \<open>imageUsd\<close> are undefined, is
  reached only when \<open>inputUsd\<close> is undefined as well, and returns the cost 0. A price
  list whose only GPT-4 meter names no billing dimension produces such meters.
\<close>

theorem empty_meters_cost_zero:
  "buildMeters [priceItem ''GPT-4 Tokens'' ''Standard'' 1] ''gpt-4'' = Some emptyMeters
   \<and> map_option fst
        (estimateCost bareServer 1000 1001 defaultEstimator []
           (costInput ''eastus'' ''gpt-4'' (Some 500) None None)) = Some (Inr 0)"
  by code_simp

section \<open>The fallback and the mini suffix\<close>

text \<open>
  Claim C8. The claim is that the fallback strips a trailing hyphen, so that
  \<open>llama!\<close> yields a key without one. The last replacement's pattern is
  \<^verbatim>\<open>/^-|-\$/g\<close>: with the dollar sign escaped it never matches at the end of the
  string, and the trailing hyphen stays.
\<close>

theorem canonicalModelId_trailing_hyphen_kept:
  "canonicalModelId ''llama!'' = ''llama-''"
  by code_simp



section \<open>The region's letter case\<close>

text \<open>
  Claim C10. \<open>estimateCost\<close> lower-cases the region before it touches the cache: a
  call returns what the same call with the region lower-cased returns (result,
  estimator and requests alike); after a call that was not stopped by a failed
  request, the entry for the lower-cased region exists, and a second call whose region
  differs in letter case only, made while that entry is younger than the TTL, is
  answered from it, leaving the estimator and the requested URLs as they were; and a
  PricingNotFound error carries the model as given and the lower-cased region, which is
  what its message prints.
\<close>

theorem region_lowercased_before_cache:
  "estimateCost get t1 t2 est reqs input
     = estimateCost get t1 t2 est reqs (input\<lparr>region := toLowerCase (region input)\<rparr>)
   \<and> (toLowerCase (region b) = toLowerCase (region a)
        \<and> estimateCost get t1 t2 est reqs a = Some (ra, est1, reqs1)
        \<and> (\<forall>msg. ra \<noteq> Inl (RequestFailed msg))
       \<longrightarrow> (\<exists>e. cache est1 (toLowerCase (region b)) = Some e
              \<and> (t3 - fetchedAt e < cacheTTL est1
                   \<longrightarrow> estimateCost get' t3 t4 est1 reqs1 b
                        = Some (costFromTable (meters e) (toLowerCase (region b)) b, est1, reqs1))))
   \<and> (estimateCost get t1 t2 est reqs input = Some (Inl (PricingNotFound mdl rgn), est', reqs')
       \<longrightarrow> mdl = model input \<and> rgn = toLowerCase (region input)
           \<and> errorMessage (PricingNotFound mdl rgn)
             = ''Pricing for model '' @ [dquote] @ model input @ [dquote]
               @ '' not found in region '' @ [dquote] @ toLowerCase (region input) @ [dquote]
               @ ''.'')"
proof (intro conjI impI)
  show "estimateCost get t1 t2 est reqs input
     = estimateCost get t1 t2 est reqs (input\<lparr>region := toLowerCase (region input)\<rparr>)"
    by (rule estimateCost_region)
next
  assume a: "toLowerCase (region b) = toLowerCase (region a)
        \<and> estimateCost get t1 t2 est reqs a = Some (ra, est1, reqs1)
        \<and> (\<forall>msg. ra \<noteq> Inl (RequestFailed msg))"
  with estimateCost_cases [of get t1 t2 est reqs a ra est1 reqs1]
  obtain e where e: "cache est1 (toLowerCase (region b)) = Some e" by auto
  have "estimateCost get' t3 t4 est1 reqs1 b
          = Some (costFromTable (meters e) (toLowerCase (region b)) b, est1, reqs1)"
    if "t3 - fetchedAt e < cacheTTL est1"
    using ensurePricing_fresh [OF e that] e by (rule estimateCost_after_ensure)
  with e show "\<exists>e. cache est1 (toLowerCase (region b)) = Some e
              \<and> (t3 - fetchedAt e < cacheTTL est1
                   \<longrightarrow> estimateCost get' t3 t4 est1 reqs1 b
                        = Some (costFromTable (meters e) (toLowerCase (region b)) b, est1, reqs1))"
    by blast
next
  assume a: "estimateCost get t1 t2 est reqs input = Some (Inl (PricingNotFound mdl rgn), est', reqs')"
  from estimateCost_cases [OF a]
  have "mdl = model input \<and> rgn = toLowerCase (region input)"
  proof (elim disjE exE conjE)
    fix msg :: string
    assume "Inl (PricingNotFound mdl rgn) = (Inl (RequestFailed msg) :: error + rat)"
    then show ?thesis by simp
  next
    fix e :: CachedRegionPricing
    assume "Inl (PricingNotFound mdl rgn)
              = costFromTable (meters e) (toLowerCase (region input)) input"
    then have "costFromTable (meters e) (toLowerCase (region input)) input
             = Inl (PricingNotFound mdl rgn)" by (rule sym)
    then show ?thesis by (rule costFromTable_PricingNotFound)
  qed
  then have m: "mdl = model input" and r: "rgn = toLowerCase (region input)" by simp_all
  show "mdl = model input" by (rule m)
  show "rgn = toLowerCase (region input)" by (rule r)
  show "errorMessage (PricingNotFound mdl rgn)
             = ''Pricing for model '' @ [dquote] @ model input @ [dquote]
               @ '' not found in region '' @ [dquote] @ toLowerCase (region input) @ [dquote]
               @ ''.''"
    by (simp add: m r)
qed

theorem region_lowercased_before_cache_witness:
  "toLowerCase ''eastus'' = toLowerCase ''EastUS''
   \<and> estimateCost exampleServer 1000 1001 defaultEstimator []
        (costInput ''EastUS'' ''gpt-4'' (Some 500) (Some 200) None)
      = Some (Inr (27 / 1000), warmEstimator, [pricingUrl ''USD'' ''eastus''])
   \<and> cache warmEstimator ''eastus''
      = Some \<lparr> fetchedAt = 1001, meters = buildMeters exampleItems \<rparr>
   \<and> 2000 - 1001 < cacheTTL warmEstimator
   \<and> estimateCost exampleServer 2000 2001 warmEstimator [pricingUrl ''USD'' ''eastus'']
        (costInput ''eastus'' ''gpt-4'' (Some 500) (Some 200) None)
      = Some (Inr (27 / 1000), warmEstimator, [pricingUrl ''USD'' ''eastus''])
   \<and> estimateCost exampleServer 1000 1001 defaultEstimator []
        (costInput ''EastUS'' ''non-existent-model'' (Some 100) None None)
      = Some (Inl (PricingNotFound ''non-existent-model'' ''eastus''), warmEstimator,
              [pricingUrl ''USD'' ''eastus''])
   \<and> errorMessage (PricingNotFound ''non-existent-model'' ''eastus'')
      = ''Pricing for model '' @ [dquote] @ ''non-existent-model'' @ [dquote]
        @ '' not found in region '' @ [dquote] @ ''eastus'' @ [dquote] @ ''.''"
proof -
  let ?a = "costInput ''EastUS'' ''gpt-4'' (Some 500) (Some 200) None"
  let ?b = "costInput ''eastus'' ''gpt-4'' (Some 500) (Some 200) None"
  let ?u = "costInput ''EastUS'' ''non-existent-model'' (Some 100) None None"
  let ?e = "\<lparr> fetchedAt = 1001, meters = buildMeters exampleItems \<rparr>"
  let ?reqs = "[pricingUrl ''USD'' ''eastus'']"
  have r: "region ?a = ''EastUS''" "region ?b = ''eastus''" "region ?u = ''EastUS''"
    "model ?u = ''non-existent-model''"
    by (simp_all add: costInput_def)
  have l: "toLowerCase ''eastus'' = ''eastus''" by code_simp
  have c: "cache warmEstimator ''eastus'' = Some ?e" by (simp add: warmEstimator_simps)
  have ens: "ensurePricing exampleServer 1000 1001 defaultEstimator [] (toLowerCase (region ?a))
      = Some (Inr (), warmEstimator, ?reqs)"
    by (simp add: r toLowerCase_EastUS ensure_default_example)
  have first: "estimateCost exampleServer 1000 1001 defaultEstimator [] ?a
      = Some (Inr (27 / 1000), warmEstimator, ?reqs)"
    using estimateCost_after_ensure [OF ens, of ?e] c
    by (simp add: r toLowerCase_EastUS example_gpt4_cost)
  have ens': "ensurePricing exampleServer 1000 1001 defaultEstimator [] (toLowerCase (region ?u))
      = Some (Inr (), warmEstimator, ?reqs)"
    by (simp add: r toLowerCase_EastUS ensure_default_example)
  have unknown: "estimateCost exampleServer 1000 1001 defaultEstimator [] ?u
      = Some (Inl (PricingNotFound ''non-existent-model'' ''eastus''), warmEstimator, ?reqs)"
    using estimateCost_after_ensure [OF ens', of ?e] c
    by (simp add: r toLowerCase_EastUS example_unknown_model)
  have same: "toLowerCase (region ?b) = toLowerCase (region ?a)"
    by (simp add: r l toLowerCase_EastUS)
  have ok: "\<forall>msg. (Inr (27 / 1000) :: error + rat) \<noteq> Inl (RequestFailed msg)" by simp
  note share = region_lowercased_before_cache
    [where a = ?a and b = ?b and get = exampleServer and ?t1.0 = 1000 and ?t2.0 = 1001
       and est = defaultEstimator and reqs = "[]" and ra = "Inr (27 / 1000)"
       and ?est1.0 = warmEstimator and ?reqs1.0 = ?reqs and ?t3.0 = 2000 and ?t4.0 = 2001
       and get' = exampleServer,
     THEN conjunct2, THEN conjunct1, rule_format, OF conjI [OF same conjI [OF first ok]]]
  note msg = region_lowercased_before_cache
    [where input = ?u and get = exampleServer and ?t1.0 = 1000 and ?t2.0 = 1001
       and est = defaultEstimator and reqs = "[]" and mdl = "''non-existent-model''"
       and rgn = "''eastus''" and est' = warmEstimator and reqs' = ?reqs,
     THEN conjunct2, THEN conjunct2, rule_format, OF unknown]
  from share obtain e
    where es: "cache warmEstimator (toLowerCase (region ?b)) = Some e
       \<and> (2000 - fetchedAt e < cacheTTL warmEstimator \<longrightarrow>
       estimateCost exampleServer 2000 2001 warmEstimator ?reqs ?b
         = Some (costFromTable (meters e) (toLowerCase (region ?b)) ?b, warmEstimator, ?reqs))" ..
  have lb: "toLowerCase (region ?b) = ''eastus''" by (simp only: r l)
  from es have "cache warmEstimator ''eastus'' = Some e" unfolding lb by (rule conjunct1)
  with c have e': "e = ?e" by simp
  have fresh: "2000 - 1001 < cacheTTL warmEstimator" by (simp add: warmEstimator_simps)
  then have "2000 - fetchedAt ?e < cacheTTL warmEstimator" by simp
  with es have "estimateCost exampleServer 2000 2001 warmEstimator ?reqs ?b
         = Some (costFromTable (meters ?e) ''eastus'' ?b, warmEstimator, ?reqs)"
    unfolding lb e' by (rule conjunct2 [THEN mp])
  then have second: "estimateCost exampleServer 2000 2001 warmEstimator ?reqs ?b
         = Some (Inr (27 / 1000), warmEstimator, ?reqs)"
    by (simp add: example_gpt4_cost_lower)
  have message: "errorMessage (PricingNotFound ''non-existent-model'' ''eastus'')
      = ''Pricing for model '' @ [dquote] @ ''non-existent-model'' @ [dquote]
        @ '' not found in region '' @ [dquote] @ ''eastus'' @ [dquote] @ ''.''"
    using msg [THEN conjunct2, THEN conjunct2] by (simp only: r toLowerCase_EastUS)
  have same': "toLowerCase ''eastus'' = toLowerCase ''EastUS''"
    by (simp only: l toLowerCase_EastUS)
  show ?thesis
    by (intro conjI) (rule same' first c fresh second unknown message)+
qed

end
